theory Spec2Isabelle
  imports Main
begin

section \<open>Strings\<close>

text \<open>
  A JavaScript string is modelled as a \<^typ>\<open>string\<close>: a list of code units, each below 256.
  \<open>undefined\<close> is \<open>None\<close> of an option type.
\<close>

abbreviation BACKSLASH :: char where "BACKSLASH \<equiv> CHR 0x5C"
abbreviation BACKSPACE :: char where "BACKSPACE \<equiv> CHR 0x08"
abbreviation BELL :: char where "BELL \<equiv> CHR 0x07"
abbreviation NUL :: char where "NUL \<equiv> CHR 0x00"
abbreviation LF :: char where "LF \<equiv> CHR 0x0A"
abbreviation CR :: char where "CR \<equiv> CHR 0x0D"

text \<open>
  \<open>s.split(sep)\<close> for a separator of one character. The result always has a first piece
  (\<open>''''.split(sep)\<close> is \<open>['''']\<close>), so the pieces are computed as the first one and the others.
\<close>

fun splitPieces :: "char \<Rightarrow> string \<Rightarrow> string \<times> string list" where
  "splitPieces sep [] = ([], [])"
| "splitPieces sep (c # cs) =
     (let (w, ws) = splitPieces sep cs
      in if c = sep then ([], w # ws) else (c # w, ws))"

definition split :: "char \<Rightarrow> string \<Rightarrow> string list" where
  "split sep s = (let (w, ws) = splitPieces sep s in w # ws)"

text \<open>
  \<open>const [a, b] = s.split(sep, 2)\<close>: the string is split at every separator, the list of
  pieces is cut to its first two, \<open>a\<close> is the first and \<open>b\<close> the second, \<open>undefined\<close>
  when there is none.
\<close>

definition split2 :: "char \<Rightarrow> string \<Rightarrow> string \<times> string option" where
  "split2 sep s =
     (let (w, ws) = splitPieces sep s
      in (w, case take 1 ws of [] \<Rightarrow> None | b # _ \<Rightarrow> Some b))"

text \<open>\<open>xs.join(sep)\<close> for a separator of one character.\<close>

fun join :: "char \<Rightarrow> string list \<Rightarrow> string" where
  "join sep [] = []"
| "join sep [x] = x"
| "join sep (x # y # ys) = x @ sep # join sep (y # ys)"

text \<open>A string or \<open>undefined\<close> in a condition: \<open>undefined\<close> and the empty string are falsy.\<close>

definition truthy :: "string option \<Rightarrow> bool" where
  "truthy v = (case v of None \<Rightarrow> False | Some s \<Rightarrow> s \<noteq> [])"

text \<open>
  \<open>toUpperCase\<close>: the letters \<open>a\<close> to \<open>z\<close> become \<open>A\<close> to \<open>Z\<close>. Every other code unit is
  left as it is; the commands of the protocol are letters and digits of ASCII.
\<close>

definition toUpperChar :: "char \<Rightarrow> char" where
  "toUpperChar c =
     (if 97 \<le> (of_char c :: nat) \<and> (of_char c :: nat) \<le> 122
      then char_of ((of_char c :: nat) - 32) else c)"

definition toUpperCase :: "string \<Rightarrow> string" where
  "toUpperCase s = map toUpperChar s"

text \<open>
  \<open>trim\<close> removes white space and line terminators at both ends: of the code units below
  256 these are TAB, LF, VT, FF, CR, space and the no-break space.
\<close>

definition isWhiteSpace :: "char \<Rightarrow> bool" where
  "isWhiteSpace c = (c \<in> set [CHR 0x09, LF, CHR 0x0B, CHR 0x0C, CR, CHR '' '', CHR 0xA0])"

definition trim :: "string \<Rightarrow> string" where
  "trim s = rev (dropWhile isWhiteSpace (rev (dropWhile isWhiteSpace s)))"

section \<open>StringTools.isChannel\<close>

text \<open>
  The source builds the regular expression from a template literal:
  \<^verbatim>\<open>new RegExp(`^[${escapeRegexString(validTypes)}][^ \b\0\n\r,]+$`)\<close>.
  In a template literal \<^verbatim>\<open>\b\<close> is the backspace character U+0008, \<^verbatim>\<open>\0\<close> is NUL,
  \<^verbatim>\<open>\n\<close> is LF and \<^verbatim>\<open>\r\<close> is CR, so the negated class holds space, backspace, NUL, LF, CR
  and the comma. \<open>escapeRegexString\<close> is the package escape-string-regexp; it is taken to
  make every character of \<open>validTypes\<close> a literal member of the first class. Without the
  \<open>m\<close> flag \<open>$\<close> matches at the end of the input only, and a negated class matches line
  terminators too.
\<close>

definition channelExcluded :: "char list" where
  "channelExcluded = [CHR '' '', BACKSPACE, NUL, LF, CR, CHR '','']"

definition isChannel :: "string \<Rightarrow> string \<Rightarrow> bool" where
  "isChannel str validTypes =
     (case str of
        [] \<Rightarrow> False
      | c # rest \<Rightarrow> c \<in> set validTypes \<and> rest \<noteq> [] \<and> list_all (\<lambda>x. x \<notin> set channelExcluded) rest)"

section \<open>Message.parsePrefix\<close>

record MessagePrefix =
  raw :: string
  nick :: string
  user :: "string option"
  host :: "string option"

definition parsePrefix :: "string \<Rightarrow> MessagePrefix" where
  "parsePrefix r =
     (let (n, hostName) = split2 (CHR ''!'') r
      in case hostName of
           None \<Rightarrow> \<lparr>raw = r, nick = n, user = None, host = None\<rparr>
         | Some hn \<Rightarrow>
             if hn \<noteq> [] then
               (let (u, h) = split2 (CHR ''@'') hn
                in if truthy h
                   then \<lparr>raw = r, nick = n, user = Some u, host = h\<rparr>
                   else \<lparr>raw = r, nick = n, user = None, host = Some u\<rparr>)
             else \<lparr>raw = r, nick = n, user = None, host = None\<rparr>)"

section \<open>Message.parseTags\<close>

datatype error =
    LineWithoutCommand
  | TypeError
  | ExpectedMoreParams
  | NotEnoughParamsLeft
  | ParameterUnderflow
  | NoParamsLeftForRest string
  | RequiredParamInvalid string
  | RequiredParamNotFound string
  | CaptureUnsupported

definition tagEscapeMap :: "char \<rightharpoonup> string" where
  "tagEscapeMap =
     [BACKSLASH \<mapsto> [BACKSLASH], CHR '':'' \<mapsto> '';'', CHR ''n'' \<mapsto> [LF], CHR ''r'' \<mapsto> [CR],
      CHR ''s'' \<mapsto> '' '']"

text \<open>
  \<^verbatim>\<open>tagValue.replace(/\\([\\:nrs])/g, (_, match) => tagEscapeMap[match])\<close>: the string is read
  from the left; where a backslash is followed by one of the five characters of the class,
  the two are replaced by the map's entry and reading goes on after them; every other
  character is kept. A callback that returns \<open>undefined\<close> inserts the text \<open>undefined\<close>.
\<close>

fun unescapeTagValue :: "string \<Rightarrow> string" where
  "unescapeTagValue (b # c # cs) =
     (if b = BACKSLASH \<and> c \<in> set [BACKSLASH, CHR '':'', CHR ''n'', CHR ''r'', CHR ''s'']
      then (case tagEscapeMap c of Some t \<Rightarrow> t | None \<Rightarrow> ''undefined'') @ unescapeTagValue cs
      else b # unescapeTagValue (c # cs))"
| "unescapeTagValue cs = cs"

text \<open>
  The loop of \<open>parseTags\<close> over the pieces of \<open>raw.split(';')\<close>. A piece without \<open>=\<close> leaves
  \<open>tagValue\<close> undefined, and \<open>tagValue.replace\<close> raises a TypeError.
\<close>

fun parseTagsLoop :: "string list \<Rightarrow> (string \<rightharpoonup> string) \<Rightarrow> error + (string \<rightharpoonup> string)" where
  "parseTagsLoop [] tags = Inr tags"
| "parseTagsLoop (tagString # tagStrings) tags =
     (let (tagName, tagValue) = split2 (CHR ''='') tagString
      in case tagValue of
           None \<Rightarrow> Inl TypeError
         | Some v \<Rightarrow> parseTagsLoop tagStrings (tags(tagName \<mapsto> unescapeTagValue v)))"

definition parseTags :: "string \<Rightarrow> error + (string \<rightharpoonup> string)" where
  "parseTags r = parseTagsLoop (split (CHR '';'') r) Map.empty"

section \<open>Message: data\<close>

text \<open>
  \<open>MessageParam\<close>, \<open>MessageParamSpecEntry\<close> and \<open>MessageConstructor\<close> as the source declares
  them. An absent flag of a spec entry is falsy, so the flags are booleans. \<open>match\<close> is a
  regular expression in the source; here it is the predicate \<open>match.test\<close> computes.
  \<open>PARAM_SPEC\<close> is an object whose keys are parameter names; \<open>Object.entries\<close> and
  \<open>Object.keys\<close> list them in the order of declaration, so it is a list of pairs.
  \<open>NAME\<close> is the name of the class, which \<open>instanceof\<close> is decided by.
\<close>

record MessageParam =
  "value" :: string
  trailing :: bool

datatype ParamType = channel

record MessageParamSpecEntry =
  trailingEntry :: bool
  rest :: bool
  optional :: bool
  paramType :: "ParamType option"
  match :: "(string \<Rightarrow> bool) option"

record MessageConstructor =
  NAME :: string
  COMMAND :: string
  PARAM_SPEC :: "(string \<times> MessageParamSpecEntry) list"
  SUPPORTS_CAPTURE :: bool

text \<open>
  Modelled from the spec: \<open>Client.knowsCommand\<close> and \<open>Client.getCommandClass\<close> are called by
  \<open>Message.parse\<close> and are not in the source of \<open>Client\<close>; the spec (4.5) has a registry from
  command string to descriptor, which is the field \<open>commandClasses\<close>.
\<close>

record Client =
  channelTypes :: string
  commandClasses :: "string \<rightharpoonup> MessageConstructor"

record Message =
  constructorOf :: MessageConstructor
  tagsOf :: "(string \<rightharpoonup> string) option"
  prefixOf :: "MessagePrefix option"
  command :: string
  paramsOf :: "MessageParam list option"
  parsedParams :: "(string \<rightharpoonup> MessageParam) option"
  rawLine :: "string option"

text \<open>The base class \<open>Message\<close>: the class of a line whose command is not registered.\<close>

definition Message_class :: MessageConstructor where
  "Message_class =
     \<lparr>NAME = ''Message'', COMMAND = [], PARAM_SPEC = [], SUPPORTS_CAPTURE = False\<rparr>"

section \<open>Message: checkParam, minParamCount, parseParams\<close>

definition checkParam :: "Client \<Rightarrow> string \<Rightarrow> MessageParamSpecEntry \<Rightarrow> bool" where
  "checkParam client param spec =
     (if paramType spec = Some channel \<and> \<not> isChannel param (channelTypes client) then False
      else case match spec of
             Some test \<Rightarrow> if \<not> test param then False else True
           | None \<Rightarrow> True)"

definition minParamCount :: "MessageConstructor \<Rightarrow> nat" where
  "minParamCount cls = length (filter (\<lambda>spec. \<not> optional spec) (map snd (PARAM_SPEC cls)))"

text \<open>
  The \<open>for\<close> loop of \<open>parseParams\<close> over the entries of \<open>PARAM_SPEC\<close>, with the loop's
  variables \<open>i\<close>, \<open>requiredParamsLeft\<close> and \<open>parsedParams\<close> as arguments. \<open>continue\<close> is the
  recursive call on the other entries, \<open>break\<close> returns what has been parsed, \<open>throw\<close> is
  \<open>Inl\<close>. \<open>this._params[i]\<close> is undefined from \<open>i = length\<close> on. The \<open>while\<close> loop of a
  \<open>rest\<close> entry takes the parameters from \<open>i\<close> on up to the first trailing one.
\<close>

definition afterEntry ::
  "MessageParamSpecEntry \<Rightarrow> (string \<rightharpoonup> MessageParam) \<Rightarrow>
   (error + (string \<rightharpoonup> MessageParam)) \<Rightarrow> error + (string \<rightharpoonup> MessageParam)" where
  "afterEntry paramSpec parsed continue = (if trailingEntry paramSpec then Inr parsed else continue)"

fun parseParamsLoop ::
  "Client \<Rightarrow> MessageParam list \<Rightarrow> (string \<times> MessageParamSpecEntry) list \<Rightarrow> nat \<Rightarrow> int \<Rightarrow>
   (string \<rightharpoonup> MessageParam) \<Rightarrow> error + (string \<rightharpoonup> MessageParam)" where
  "parseParamsLoop client ps [] i requiredParamsLeft parsed = Inr parsed"
| "parseParamsLoop client ps ((paramName, paramSpec) # entries) i requiredParamsLeft parsed =
     (if int (length ps) - int i \<le> requiredParamsLeft \<and> optional paramSpec
      then parseParamsLoop client ps entries i requiredParamsLeft parsed
      else if int (length ps) - int i \<le> requiredParamsLeft
              \<and> int (length ps) - int i \<noteq> requiredParamsLeft
      then Inl NotEnoughParamsLeft
      else if length ps \<le> i
      then (if optional paramSpec then Inr parsed else Inl ParameterUnderflow)
      else
        let restParams = takeWhile (\<lambda>p. \<not> trailing p) (drop i ps);
            i' = (if rest paramSpec then i + length restParams else i);
            param = (if rest paramSpec
                     then \<lparr>value = join (CHR '' '') (map value restParams), trailing = False\<rparr>
                     else ps ! i)
        in if rest paramSpec \<and> restParams = []
           then (if optional paramSpec
                 then parseParamsLoop client ps entries i' requiredParamsLeft parsed
                 else Inl (NoParamsLeftForRest paramName))
           else if checkParam client (value param) paramSpec
           then afterEntry paramSpec (parsed(paramName \<mapsto> param))
                  (parseParamsLoop client ps entries
                     (if rest paramSpec then i' else i' + 1)
                     (if optional paramSpec then requiredParamsLeft else requiredParamsLeft - 1)
                     (parsed(paramName \<mapsto> param)))
           else if \<not> optional paramSpec
           then Inl (RequiredParamInvalid paramName)
           else afterEntry paramSpec parsed
                  (parseParamsLoop client ps entries i' requiredParamsLeft parsed))"

text \<open>
  \<open>parseParams\<close>: nothing is done when \<open>_params\<close> is undefined (\<open>_parsedParams\<close> stays
  undefined); otherwise the count check, then the loop.
\<close>

definition parseParams ::
  "Client \<Rightarrow> MessageConstructor \<Rightarrow> MessageParam list option \<Rightarrow>
   error + (string \<rightharpoonup> MessageParam) option" where
  "parseParams client cls params =
     (case params of
        None \<Rightarrow> Inr None
      | Some ps \<Rightarrow>
          if length ps < minParamCount cls then Inl ExpectedMoreParams
          else (case parseParamsLoop client ps (PARAM_SPEC cls) 0 (int (minParamCount cls)) Map.empty of
                  Inl e \<Rightarrow> Inl e
                | Inr parsed \<Rightarrow> Inr (Some parsed)))"

text \<open>The constructor: the fields are set and \<open>parseParams\<close> runs.\<close>

definition newMessage ::
  "Client \<Rightarrow> MessageConstructor \<Rightarrow> string \<Rightarrow> MessageParam list option \<Rightarrow>
   (string \<rightharpoonup> string) option \<Rightarrow> MessagePrefix option \<Rightarrow> error + Message" where
  "newMessage client cls cmd params tags prefix =
     (case parseParams client cls params of
        Inl e \<Rightarrow> Inl e
      | Inr parsed \<Rightarrow>
          Inr \<lparr>constructorOf = cls, tagsOf = tags, prefixOf = prefix, command = cmd,
               paramsOf = params, parsedParams = parsed, rawLine = None\<rparr>)"

section \<open>Message.parse\<close>

text \<open>
  The \<open>while\<close> loop of \<open>parse\<close> over \<open>splitLine\<close>, with \<open>tags\<close>, \<open>prefix\<close>, \<open>command\<close> and
  \<open>params\<close> as the loop's state. \<open>!tags\<close> and \<open>!prefix\<close> hold while the variable is
  undefined; \<open>!command\<close> holds while it is undefined or the empty string. A token that
  starts with a colon after the command takes the rest of the line and ends the loop.
\<close>

type_synonym ParseState =
  "(string \<rightharpoonup> string) option \<times> MessagePrefix option \<times> string option \<times> MessageParam list"

fun parseLoop :: "string list \<Rightarrow> ParseState \<Rightarrow> error + ParseState" where
  "parseLoop [] st = Inr st"
| "parseLoop (token # splitLine) (tags, prefix, cmd, params) =
     (if take 1 token = ''@'' \<and> tags = None \<and> \<not> truthy cmd then
        (case parseTags (drop 1 token) of
           Inl e \<Rightarrow> Inl e
         | Inr t \<Rightarrow> parseLoop splitLine (Some t, prefix, cmd, params))
      else if take 1 token = '':'' then
        (if prefix = None \<and> \<not> truthy cmd
         then parseLoop splitLine (tags, Some (parsePrefix (drop 1 token)), cmd, params)
         else Inr (tags, prefix, cmd,
                   params @ [\<lparr>value = drop 1 (join (CHR '' '') (token # splitLine)),
                               trailing = True\<rparr>]))
      else if \<not> truthy cmd
      then parseLoop splitLine (tags, prefix, Some (toUpperCase token), params)
      else parseLoop splitLine (tags, prefix, cmd, params @ [\<lparr>value = token, trailing = False\<rparr>]))"

definition parse :: "Client \<Rightarrow> string \<Rightarrow> error + Message" where
  "parse client line =
     (case parseLoop (split (CHR '' '') line) (None, None, None, []) of
        Inl e \<Rightarrow> Inl e
      | Inr (tags, prefix, cmd, params) \<Rightarrow>
          (case cmd of
             None \<Rightarrow> Inl LineWithoutCommand
           | Some c \<Rightarrow>
               if c = [] then Inl LineWithoutCommand
               else
                 let messageClass = (case commandClasses client c of
                                       Some known \<Rightarrow> known
                                     | None \<Rightarrow> Message_class)
                 in (case newMessage client messageClass c (Some params) tags prefix of
                       Inl e \<Rightarrow> Inl e
                     | Inr message \<Rightarrow> Inr (message\<lparr>rawLine := Some line\<rparr>))))"

section \<open>Message.create and Message.toString\<close>

text \<open>
  The callback of \<open>ObjectTools.forEach\<close> in \<open>create\<close>, run over the entries of
  \<open>PARAM_SPEC\<close>; \<open>params\<close> is the object of named values, a key of which is \<open>in\<close> it when
  the map is defined there.
\<close>

fun createLoop ::
  "Client \<Rightarrow> (string \<rightharpoonup> string) \<Rightarrow> (string \<times> MessageParamSpecEntry) list \<Rightarrow>
   (string \<rightharpoonup> MessageParam) \<Rightarrow> error + (string \<rightharpoonup> MessageParam)" where
  "createLoop client params [] parsed = Inr parsed"
| "createLoop client params ((paramName, paramSpec) # entries) parsed =
     (case (case params paramName of
              None \<Rightarrow> Inr parsed
            | Some param \<Rightarrow>
                if checkParam client param paramSpec
                then Inr (parsed(paramName \<mapsto> \<lparr>value = param, trailing = trailingEntry paramSpec\<rparr>))
                else if \<not> optional paramSpec then Inl (RequiredParamInvalid paramName)
                else Inr parsed) of
        Inl e \<Rightarrow> Inl e
      | Inr parsed' \<Rightarrow>
          if parsed' paramName = None \<and> \<not> optional paramSpec
          then Inl (RequiredParamNotFound paramName)
          else createLoop client params entries parsed')"

definition create :: "MessageConstructor \<Rightarrow> Client \<Rightarrow> (string \<rightharpoonup> string) \<Rightarrow> error + Message" where
  "create cls client params =
     (case newMessage client cls (COMMAND cls) None None None of
        Inl e \<Rightarrow> Inl e
      | Inr message \<Rightarrow>
          (case createLoop client params (PARAM_SPEC cls) Map.empty of
             Inl e \<Rightarrow> Inl e
           | Inr parsed \<Rightarrow> Inr (message\<lparr>parsedParams := Some parsed\<rparr>)))"

text \<open>
  \<open>toString\<close>: the command, then for each key of \<open>PARAM_SPEC\<close> that has a parsed parameter
  its value, after a colon when the parameter is trailing; joined by spaces. Reading a
  key of an undefined \<open>_parsedParams\<close> raises a TypeError.
\<close>

definition renderParam :: "MessageParam \<Rightarrow> string" where
  "renderParam param = (if trailing param then '':'' else []) @ value param"

definition toString :: "Message \<Rightarrow> error + string" where
  "toString m =
     (case parsedParams m of
        None \<Rightarrow> if PARAM_SPEC (constructorOf m) = [] then Inr (command m) else Inl TypeError
      | Some parsed \<Rightarrow>
          Inr (join (CHR '' '')
                 (command m #
                  map renderParam
                    (List.map_filter (\<lambda>paramName. parsed paramName)
                       (map fst (PARAM_SPEC (constructorOf m)))))))"

text \<open>The getter \<open>params\<close>: the values of the parsed parameters.\<close>

definition params :: "Message \<Rightarrow> error + (string \<rightharpoonup> string)" where
  "params m =
     (case parsedParams m of
        None \<Rightarrow> Inl TypeError
      | Some parsed \<Rightarrow> Inr (\<lambda>paramName. map_option value (parsed paramName)))"

section \<open>Message types\<close>

text \<open>The predicates that the regular expressions of the parameter specs compute.\<close>

definition isLetter :: "char \<Rightarrow> bool" where
  "isLetter c =
     ((65 \<le> (of_char c :: nat) \<and> (of_char c :: nat) \<le> 90)
      \<or> (97 \<le> (of_char c :: nat) \<and> (of_char c :: nat) \<le> 122))"

definition isDigit :: "char \<Rightarrow> bool" where
  "isDigit c = (48 \<le> (of_char c :: nat) \<and> (of_char c :: nat) \<le> 57)"

definition nickSpecial :: "char list" where
  "nickSpecial =
     [CHR ''_'', CHR ''-'', CHR ''['', CHR '']'', BACKSLASH, CHR ''^'', CHR ''{'', CHR ''}'',
      CHR ''|'', CHR 0x60]"

text \<open>\<^verbatim>\<open>/^(?:[a-z_\-\[\]\\^{}|`][a-z0-9_\-\[\]\\^{}|`]*|\*)$/i\<close>\<close>

definition matchTarget :: "string \<Rightarrow> bool" where
  "matchTarget s =
     (s = ''*'' \<or>
      (case s of
         [] \<Rightarrow> False
       | c # cs \<Rightarrow> (isLetter c \<or> c \<in> set nickSpecial)
                  \<and> list_all (\<lambda>x. isLetter x \<or> isDigit x \<or> x \<in> set nickSpecial) cs))"

text \<open>\<^verbatim>\<open>/^(?:LS|LIST|REQ|ACK|NAK|END|NEW|DEL)$/i\<close>\<close>

definition matchSubCommand :: "string \<Rightarrow> bool" where
  "matchSubCommand s =
     (toUpperCase s \<in> set [''LS'', ''LIST'', ''REQ'', ''ACK'', ''NAK'', ''END'', ''NEW'', ''DEL''])"

text \<open>\<^verbatim>\<open>/^\d+$/\<close> and \<^verbatim>\<open>/^\*$/\<close>\<close>

definition matchVersion :: "string \<Rightarrow> bool" where
  "matchVersion s = (s \<noteq> [] \<and> list_all isDigit s)"

definition matchContinued :: "string \<Rightarrow> bool" where
  "matchContinued s = (s = ''*'')"

definition plainEntry :: MessageParamSpecEntry where
  "plainEntry =
     \<lparr>trailingEntry = False, rest = False, optional = False, paramType = None, match = None\<rparr>"

definition CapabilityNegotiation :: MessageConstructor where
  "CapabilityNegotiation =
     \<lparr>NAME = ''CapabilityNegotiation'',
      COMMAND = ''CAP'',
      PARAM_SPEC =
        [(''target'', plainEntry\<lparr>match := Some matchTarget, optional := True\<rparr>),
         (''command'', plainEntry\<lparr>match := Some matchSubCommand\<rparr>),
         (''version'', plainEntry\<lparr>match := Some matchVersion, optional := True\<rparr>),
         (''continued'', plainEntry\<lparr>match := Some matchContinued, optional := True\<rparr>),
         (''capabilities'', plainEntry\<lparr>trailingEntry := True, optional := True\<rparr>)],
      SUPPORTS_CAPTURE = True\<rparr>"

text \<open>
  The classes declared with the decorators \<open>MessageType\<close> and \<open>MessageParamDefinition\<close>:
  the command is the decorator's argument and the entries are the decorated fields in
  their order; \<open>SUPPORTS_CAPTURE\<close> is inherited from \<open>Message\<close>.
\<close>

definition Error436NickCollision :: MessageConstructor where
  "Error436NickCollision =
     \<lparr>NAME = ''Error436NickCollision'',
      COMMAND = ''436'',
      PARAM_SPEC =
        [(''me'', plainEntry), (''nick'', plainEntry),
         (''suffix'', plainEntry\<lparr>trailingEntry := True\<rparr>)],
      SUPPORTS_CAPTURE = False\<rparr>"

definition Reply315EndOfWho :: MessageConstructor where
  "Reply315EndOfWho =
     \<lparr>NAME = ''Reply315EndOfWho'',
      COMMAND = ''315'',
      PARAM_SPEC =
        [(''me'', plainEntry), (''query'', plainEntry),
         (''suffix'', plainEntry\<lparr>trailingEntry := True\<rparr>)],
      SUPPORTS_CAPTURE = False\<rparr>"

definition ClientQuit :: MessageConstructor where
  "ClientQuit =
     \<lparr>NAME = ''ClientQuit'',
      COMMAND = ''QUIT'',
      PARAM_SPEC = [(''message'', plainEntry\<lparr>trailingEntry := True, optional := True\<rparr>)],
      SUPPORTS_CAPTURE = False\<rparr>"

section \<open>isResponseTo and endsResponseTo\<close>

text \<open>
  \<open>m instanceof C\<close>: the classes are told apart by their names, and none of the classes
  here has a subclass.
\<close>

definition instanceof :: "Message \<Rightarrow> MessageConstructor \<Rightarrow> bool" where
  "instanceof m cls = (NAME (constructorOf m) = NAME cls)"

text \<open>
  \<open>CapabilityNegotiation.isResponseTo\<close>. The \<open>switch\<close> compares \<open>this.params.command\<close>
  with the upper-case literals. \<open>this.params.capabilities.trim()\<close> raises a TypeError
  when the reply has no \<open>capabilities\<close>; it is evaluated only after the originating
  sub-command has been found to be \<open>REQ\<close>.
\<close>

definition CapabilityNegotiation_isResponseTo :: "Message \<Rightarrow> Message \<Rightarrow> error + bool" where
  "CapabilityNegotiation_isResponseTo this originalMessage =
     (if \<not> instanceof originalMessage CapabilityNegotiation then Inr False
      else case params this of
        Inl e \<Rightarrow> Inl e
      | Inr mine \<Rightarrow>
          if mine ''command'' = Some ''ACK'' \<or> mine ''command'' = Some ''NAK'' then
            (case params originalMessage of
               Inl e \<Rightarrow> Inl e
             | Inr theirs \<Rightarrow>
                 if theirs ''command'' = Some ''REQ'' then
                   (case mine ''capabilities'' of
                      None \<Rightarrow> Inl TypeError
                    | Some caps \<Rightarrow> Inr (theirs ''capabilities'' = Some (trim caps)))
                 else Inr False)
          else if mine ''command'' = Some ''LS'' \<or> mine ''command'' = Some ''LIST'' then
            (case params originalMessage of
               Inl e \<Rightarrow> Inl e
             | Inr theirs \<Rightarrow> Inr (theirs ''command'' = mine ''command''))
          else Inr False)"

definition CapabilityNegotiation_endsResponseTo :: "Message \<Rightarrow> Message \<Rightarrow> error + bool" where
  "CapabilityNegotiation_endsResponseTo this originalMessage =
     (if \<not> instanceof originalMessage CapabilityNegotiation then Inr False
      else case params this of
        Inl e \<Rightarrow> Inl e
      | Inr mine \<Rightarrow>
          if mine ''command'' = Some ''LS'' \<or> mine ''command'' = Some ''LIST''
          then Inr (\<not> truthy (mine ''continued''))
          else Inr True)"

text \<open>
  The method a message answers with is the one of its class: \<open>CapabilityNegotiation\<close>,
  \<open>Error436NickCollision\<close> and \<open>Reply315EndOfWho\<close> override the methods of \<open>Message\<close>,
  which return false. \<open>Reply315EndOfWho\<close> asks whether the originating message is a
  \<open>WhoQuery\<close>, a class known here by its name only.
\<close>

definition isResponseTo :: "Message \<Rightarrow> Message \<Rightarrow> error + bool" where
  "isResponseTo this originalMessage =
     (if instanceof this CapabilityNegotiation
      then CapabilityNegotiation_isResponseTo this originalMessage
      else if instanceof this Error436NickCollision
      then Inr (command originalMessage = ''NICK'')
      else if instanceof this Reply315EndOfWho
      then Inr (NAME (constructorOf originalMessage) = ''WhoQuery'')
      else Inr False)"

definition endsResponseTo :: "Message \<Rightarrow> Message \<Rightarrow> error + bool" where
  "endsResponseTo this originalMessage =
     (if instanceof this CapabilityNegotiation
      then CapabilityNegotiation_endsResponseTo this originalMessage
      else if instanceof this Error436NickCollision \<or> instanceof this Reply315EndOfWho
      then Inr True
      else Inr False)"

definition acceptsInReplyCollection :: "Message \<Rightarrow> Message \<Rightarrow> error + bool" where
  "acceptsInReplyCollection this message = isResponseTo message this"

section \<open>Reply capture\<close>

text \<open>
  Modelled from the spec: the pending capture that \<open>Client.collect\<close> keeps is not in the
  source of \<open>Client\<close>. The spec (3) has an originating message, the sequence of accepted
  messages, in order, and a completion slot: not yet, fulfilled or failed.
\<close>

datatype Completion = Open | ClosedSuccess | ClosedFailure

record PendingCapture =
  originating :: Message
  accumulated :: "Message list"
  completion :: Completion

record ClientState =
  captures :: "PendingCapture list"
  sentLines :: "string list"

text \<open>
  Modelled from the spec: \<open>Client.collect\<close> is called by \<open>sendAndCaptureReply\<close> and is not in
  the source of \<open>Client\<close>. The spec (4.6) registers an open capture for the message and
  returns a handle the caller can wait on; the handle is the position of the capture.
\<close>

definition collect :: "Message \<Rightarrow> ClientState \<Rightarrow> nat \<times> ClientState" where
  "collect m st =
     (length (captures st),
      st\<lparr>captures := captures st @ [\<lparr>originating = m, accumulated = [], completion = Open\<rparr>]\<rparr>)"

text \<open>
  Modelled from the spec: what the collector does with an inbound message is not in the
  source. The spec (4.6) offers the message to an open capture, which accepts it into the
  accumulated sequence iff the originating message accepts it
  (\<open>_acceptsInReplyCollection\<close>), and is completed with the sequence when the accepted
  message ends the response (\<open>endsResponseTo\<close>).
\<close>

definition offer :: "PendingCapture \<Rightarrow> Message \<Rightarrow> error + PendingCapture" where
  "offer capture m =
     (if completion capture \<noteq> Open then Inr capture
      else case acceptsInReplyCollection (originating capture) m of
        Inl e \<Rightarrow> Inl e
      | Inr accepted \<Rightarrow>
          if \<not> accepted then Inr capture
          else (case endsResponseTo m (originating capture) of
                  Inl e \<Rightarrow> Inl e
                | Inr ends \<Rightarrow>
                    Inr (capture\<lparr>accumulated := accumulated capture @ [m],
                                 completion := (if ends then ClosedSuccess else Open)\<rparr>)))"

text \<open>
  \<open>Client.send\<close> hands \<open>message.toString()\<close> to the connection's \<open>sendLine\<close>, which is not
  in the source; the lines handed over are kept in \<open>sentLines\<close>.
\<close>

definition send :: "Message \<Rightarrow> ClientState \<Rightarrow> error + ClientState" where
  "send m st =
     (case toString m of
        Inl e \<Rightarrow> Inl e
      | Inr line \<Rightarrow> Inr (st\<lparr>sentLines := sentLines st @ [line]\<rparr>))"

text \<open>
  \<open>sendAndCaptureReply\<close>: the result is the promise's handle or the error the
  \<open>async\<close> function rejects with, and the client's state after the call.
\<close>

definition sendAndCaptureReply :: "Message \<Rightarrow> ClientState \<Rightarrow> (error + nat) \<times> ClientState" where
  "sendAndCaptureReply this st =
     (if \<not> SUPPORTS_CAPTURE (constructorOf this) then (Inl CaptureUnsupported, st)
      else
        let (promise, st1) = collect this st
        in case send this st1 of
             Inl e \<Rightarrow> (Inl e, st1)
           | Inr st2 \<Rightarrow> (Inr promise, st2))"

section \<open>Derived notions and example values\<close>

text \<open>The value of a named parameter of a message, if it has one.\<close>

definition paramValue :: "Message \<Rightarrow> string \<Rightarrow> string option" where
  "paramValue m paramName = (case params m of Inl e \<Rightarrow> None | Inr values \<Rightarrow> values paramName)"

definition parsedParam :: "Message \<Rightarrow> string \<Rightarrow> MessageParam option" where
  "parsedParam m paramName = (case parsedParams m of None \<Rightarrow> None | Some parsed \<Rightarrow> parsed paramName)"

text \<open>
  The round trip: a message is constructed from named values by \<open>create\<close>, serialized by
  \<open>toString\<close>, and the line is parsed by \<open>parse\<close>.
\<close>

definition roundTrip :: "MessageConstructor \<Rightarrow> Client \<Rightarrow> (string \<rightharpoonup> string) \<Rightarrow> error + Message" where
  "roundTrip cls client vals =
     (case create cls client vals of
        Inl e \<Rightarrow> Inl e
      | Inr m \<Rightarrow> (case toString m of Inl e \<Rightarrow> Inl e | Inr line \<Rightarrow> parse client line))"

definition exampleClient :: Client where
  "exampleClient =
     \<lparr>channelTypes = ''#&'',
      commandClasses = [''CAP'' \<mapsto> CapabilityNegotiation, ''436'' \<mapsto> Error436NickCollision,
                        ''QUIT'' \<mapsto> ClientQuit]\<rparr>"

text \<open>
  \<open>requestMessage\<close> is what \<open>create\<close> makes of \<open>command: REQ, capabilities: multi-prefix\<close>,
  \<open>ackMessage\<close> is what \<open>parse\<close> makes of the line \<open>CAP * ACK :multi-prefix \<close>, with the
  space some servers add at the end.
\<close>

definition requestMessage :: Message where
  "requestMessage =
     \<lparr>constructorOf = CapabilityNegotiation, tagsOf = None, prefixOf = None, command = ''CAP'',
      paramsOf = None,
      parsedParams = Some [''command'' \<mapsto> \<lparr>value = ''REQ'', trailing = False\<rparr>,
                           ''capabilities'' \<mapsto> \<lparr>value = ''multi-prefix'', trailing = True\<rparr>],
      rawLine = None\<rparr>"

definition ackMessage :: Message where
  "ackMessage =
     \<lparr>constructorOf = CapabilityNegotiation, tagsOf = None, prefixOf = None, command = ''CAP'',
      paramsOf = Some [\<lparr>value = ''*'', trailing = False\<rparr>, \<lparr>value = ''ACK'', trailing = False\<rparr>,
                       \<lparr>value = ''multi-prefix '', trailing = True\<rparr>],
      parsedParams = Some [''target'' \<mapsto> \<lparr>value = ''*'', trailing = False\<rparr>,
                           ''command'' \<mapsto> \<lparr>value = ''ACK'', trailing = False\<rparr>,
                           ''capabilities'' \<mapsto> \<lparr>value = ''multi-prefix '', trailing = True\<rparr>],
      rawLine = Some ''CAP * ACK :multi-prefix ''\<rparr>"

definition quitMessage :: Message where
  "quitMessage =
     \<lparr>constructorOf = ClientQuit, tagsOf = None, prefixOf = None, command = ''QUIT'',
      paramsOf = None,
      parsedParams = Some [''message'' \<mapsto> \<lparr>value = ''bye'', trailing = True\<rparr>],
      rawLine = None\<rparr>"

text \<open>Entries for examples: digits only, optional; the same taking the rest; any value, optional.\<close>

definition digitsEntry :: MessageParamSpecEntry where
  "digitsEntry = plainEntry\<lparr>match := Some matchVersion, optional := True\<rparr>"

definition restDigitsEntry :: MessageParamSpecEntry where
  "restDigitsEntry = plainEntry\<lparr>rest := True, match := Some matchVersion, optional := True\<rparr>"

definition optionalEntry :: MessageParamSpecEntry where
  "optionalEntry = plainEntry\<lparr>optional := True\<rparr>"

text \<open>
  What \<open>create\<close> stores for an entry that has a valid value, and the map it builds from a
  list of such entries, one update after the other.
\<close>

definition paramOfEntry :: "(string \<rightharpoonup> string) \<Rightarrow> string \<times> MessageParamSpecEntry \<Rightarrow> MessageParam" where
  "paramOfEntry vals entry =
     \<lparr>value = (case vals (fst entry) of None \<Rightarrow> [] | Some v \<Rightarrow> v),
      trailing = trailingEntry (snd entry)\<rparr>"

definition fill ::
  "(string \<rightharpoonup> string) \<Rightarrow> (string \<times> MessageParamSpecEntry) list \<Rightarrow>
   (string \<rightharpoonup> MessageParam) \<Rightarrow> (string \<rightharpoonup> MessageParam)" where
  "fill vals entries parsed =
     foldl (\<lambda>m entry. m(fst entry \<mapsto> paramOfEntry vals entry)) parsed entries"

section \<open>Properties of the codec\<close>

subsection \<open>Splitting\<close>

lemma splitPieces_no_sep: "sep \<notin> set s \<Longrightarrow> splitPieces sep s = (s, [])"
  by (induction s) auto

lemma splitPieces_append:
  "sep \<notin> set a \<Longrightarrow>
   splitPieces sep (a @ sep # b) = (a, fst (splitPieces sep b) # snd (splitPieces sep b))"
  by (induction a) (auto simp: case_prod_beta)

lemma split2_no_sep: "sep \<notin> set s \<Longrightarrow> split2 sep s = (s, None)"
  by (simp add: split2_def splitPieces_no_sep)

lemma split2_one_sep:
  "sep \<notin> set a \<Longrightarrow> sep \<notin> set b \<Longrightarrow> split2 sep (a @ sep # b) = (a, Some b)"
  by (simp add: split2_def splitPieces_append splitPieces_no_sep)

subsection \<open>Prefix\<close>

text \<open>
  C5, as the code has it. For a prefix with at most one \<open>!\<close> and at most one \<open>@\<close> after it:
  without \<open>!\<close>, or with nothing after the \<open>!\<close>, the text before it is the nick and there is
  no user and no host; otherwise the remainder is split at the \<open>@\<close>, and without \<open>@\<close>, or
  with nothing after the \<open>@\<close>, the text before it is the host and there is no user;
  otherwise it is the user and the text after the \<open>@\<close> is the host.
\<close>

theorem parsePrefix_one_separator:
  assumes "CHR ''!'' \<notin> set n"
    and "CHR ''!'' \<notin> set u" and "CHR ''@'' \<notin> set u"
    and "CHR ''!'' \<notin> set h" and "CHR ''@'' \<notin> set h"
  shows "parsePrefix n = \<lparr>raw = n, nick = n, user = None, host = None\<rparr>
       \<and> parsePrefix (n @ ''!'') = \<lparr>raw = n @ ''!'', nick = n, user = None, host = None\<rparr>
       \<and> (u \<noteq> [] \<longrightarrow> parsePrefix (n @ ''!'' @ u)
             = \<lparr>raw = n @ ''!'' @ u, nick = n, user = None, host = Some u\<rparr>)
       \<and> parsePrefix (n @ ''!'' @ u @ ''@'')
             = \<lparr>raw = n @ ''!'' @ u @ ''@'', nick = n, user = None, host = Some u\<rparr>
       \<and> (h \<noteq> [] \<longrightarrow> parsePrefix (n @ ''!'' @ u @ ''@'' @ h)
             = \<lparr>raw = n @ ''!'' @ u @ ''@'' @ h, nick = n, user = Some u, host = Some h\<rparr>)"
proof -
  have bang: "\<And>r. CHR ''!'' \<notin> set r \<Longrightarrow> split2 (CHR ''!'') (n @ ''!'' @ r) = (n, Some r)"
    using assms(1) by (simp add: split2_one_sep)
  have at0: "split2 (CHR ''@'') u = (u, None)"
    using assms(3) by (rule split2_no_sep)
  have at1: "split2 (CHR ''@'') (u @ ''@'') = (u, Some [])"
    using assms(3) split2_one_sep [of "CHR ''@''" u "[]"] by simp
  have at2: "split2 (CHR ''@'') (u @ ''@'' @ h) = (u, Some h)"
    using assms(3,5) by (simp add: split2_one_sep)
  have c1: "parsePrefix n = \<lparr>raw = n, nick = n, user = None, host = None\<rparr>"
    using assms(1) by (simp add: parsePrefix_def split2_no_sep)
  have c2: "parsePrefix (n @ ''!'') = \<lparr>raw = n @ ''!'', nick = n, user = None, host = None\<rparr>"
    using bang [of "[]"] by (simp add: parsePrefix_def)
  have c3: "u \<noteq> [] \<longrightarrow> parsePrefix (n @ ''!'' @ u)
             = \<lparr>raw = n @ ''!'' @ u, nick = n, user = None, host = Some u\<rparr>"
    using bang [of u] assms(2) at0 by (simp add: parsePrefix_def truthy_def)
  have c4: "parsePrefix (n @ ''!'' @ u @ ''@'')
             = \<lparr>raw = n @ ''!'' @ u @ ''@'', nick = n, user = None, host = Some u\<rparr>"
    using bang [of "u @ ''@''"] assms(2) at1 by (simp add: parsePrefix_def truthy_def)
  have c5: "h \<noteq> [] \<longrightarrow> parsePrefix (n @ ''!'' @ u @ ''@'' @ h)
             = \<lparr>raw = n @ ''!'' @ u @ ''@'' @ h, nick = n, user = Some u, host = Some h\<rparr>"
    using bang [of "u @ ''@'' @ h"] assms(2,4) at2 by (simp add: parsePrefix_def truthy_def)
  from c1 c2 c3 c4 c5 show ?thesis by blast
qed

theorem parsePrefix_one_separator_witness:
  "parsePrefix ''nick'' = \<lparr>raw = ''nick'', nick = ''nick'', user = None, host = None\<rparr>
   \<and> parsePrefix ''nick!host''
       = \<lparr>raw = ''nick!host'', nick = ''nick'', user = None, host = Some ''host''\<rparr>
   \<and> parsePrefix ''nick!user@host''
       = \<lparr>raw = ''nick!user@host'', nick = ''nick'', user = Some ''user'', host = Some ''host''\<rparr>"
  using parsePrefix_one_separator [of "''nick''" "''host''" "''host''"]
    parsePrefix_one_separator [of "''nick''" "''user''" "''host''"]
  by simp

text \<open>
  C5, as stated, fails: \<open>nick@host\<close> has no \<open>!\<close>, so it is a nick and no host; and of
  \<open>nick!us!er@host\<close> only the piece between the first two \<open>!\<close> is kept.
\<close>

theorem parsePrefix_counterexample:
  "parsePrefix ''nick@host''
     = \<lparr>raw = ''nick@host'', nick = ''nick@host'', user = None, host = None\<rparr>
   \<and> parsePrefix ''nick!us!er@host''
     = \<lparr>raw = ''nick!us!er@host'', nick = ''nick'', user = None, host = Some ''us''\<rparr>"
  by (simp add: parsePrefix_def split2_def truthy_def)

subsection \<open>Tags\<close>

lemma unescapeTagValue_other:
  "b \<noteq> BACKSLASH \<Longrightarrow> unescapeTagValue (b # s) = b # unescapeTagValue s"
  by (cases s) auto

lemma unescapeTagValue_plain:
  "BACKSLASH \<notin> set pre \<Longrightarrow> unescapeTagValue (pre @ s) = pre @ unescapeTagValue s"
  by (induction pre) (auto simp: unescapeTagValue_other)

text \<open>
  C6, as the code has it. Reading a tag value from the left, the first backslash and the
  character after it are replaced when that character is a backslash, a colon, \<open>n\<close>,
  \<open>r\<close> or \<open>s\<close> (by a backslash, a semicolon, LF, CR, a space); before any other character,
  and at the end of the value, the backslash stays, and so does the character.
\<close>

theorem unescapeTagValue_sequences:
  assumes "BACKSLASH \<notin> set pre"
  shows "unescapeTagValue (pre @ [BACKSLASH, BACKSLASH] @ post)
           = pre @ [BACKSLASH] @ unescapeTagValue post
       \<and> unescapeTagValue (pre @ [BACKSLASH, CHR '':''] @ post) = pre @ '';'' @ unescapeTagValue post
       \<and> unescapeTagValue (pre @ [BACKSLASH, CHR ''n''] @ post) = pre @ [LF] @ unescapeTagValue post
       \<and> unescapeTagValue (pre @ [BACKSLASH, CHR ''r''] @ post) = pre @ [CR] @ unescapeTagValue post
       \<and> unescapeTagValue (pre @ [BACKSLASH, CHR ''s''] @ post) = pre @ '' '' @ unescapeTagValue post
       \<and> (c \<notin> set [BACKSLASH, CHR '':'', CHR ''n'', CHR ''r'', CHR ''s''] \<longrightarrow>
            unescapeTagValue (pre @ [BACKSLASH, c] @ post)
              = pre @ [BACKSLASH, c] @ unescapeTagValue post)
       \<and> unescapeTagValue (pre @ [BACKSLASH]) = pre @ [BACKSLASH]"
  using assms by (simp add: unescapeTagValue_plain unescapeTagValue_other tagEscapeMap_def)

theorem unescapeTagValue_sequences_witness:
  "unescapeTagValue [CHR ''a'', BACKSLASH, CHR ''s'', CHR ''b'', BACKSLASH, CHR ''x'']
     = [CHR ''a'', CHR '' '', CHR ''b'', BACKSLASH, CHR ''x'']"
  using unescapeTagValue_sequences [of "''a''" "[CHR ''b'', BACKSLASH, CHR ''x'']" "CHR ''x''"]
    unescapeTagValue_sequences [of "''b''" "[]" "CHR ''x''"]
  by simp

text \<open>
  C6, as stated, fails: a backslash before \<open>x\<close> does not collapse to the empty string, the
  two characters are kept.
\<close>

theorem unescapeTagValue_counterexample:
  "unescapeTagValue [CHR ''a'', BACKSLASH, CHR ''x'', CHR ''b'']
     = [CHR ''a'', BACKSLASH, CHR ''x'', CHR ''b'']"
  by simp

text \<open>
  C7 at a failing input: a tag that is a key without \<open>=value\<close> makes tag decoding, and with
  it the parsing of the line, raise a TypeError.
\<close>

theorem parseTags_without_value:
  "parseTags ''account'' = Inl TypeError \<and> parse client ''@account PING'' = Inl TypeError"
  by (simp add: parseTags_def parse_def split_def split2_def truthy_def)

subsection \<open>Channel names\<close>

lemma isChannel_examples:
  "isChannel ''#foo'' ''#&'' \<and> \<not> isChannel ''foo'' ''#&'' \<and> \<not> isChannel ''&bar'' ''#''"
  by (simp add: isChannel_def channelExcluded_def)

lemma isChannel_iff:
  "isChannel s validTypes \<longleftrightarrow>
     (\<exists>c cs. s = c # cs \<and> c \<in> set validTypes \<and> cs \<noteq> []
        \<and> set cs \<inter> {CHR '' '', BACKSPACE, NUL, LF, CR, CHR '',''} = {})"
  by (cases s) (auto simp: isChannel_def channelExcluded_def list_all_iff)

text \<open>
  C9 at a failing input: a name with the BELL character after the prefix is accepted as
  a channel, and a name with a backspace is not.
\<close>

theorem isChannel_bell:
  "isChannel [CHR ''#'', CHR ''a'', BELL, CHR ''b''] ''#&''
   \<and> \<not> isChannel [CHR ''#'', CHR ''a'', BACKSPACE, CHR ''b''] ''#&''"
  by (simp add: isChannel_def channelExcluded_def)

section \<open>Properties of parameter resolution\<close>

text \<open>
  C4. \<open>minParamCount\<close> is computed as the number of entries of the parameter spec that
  are not optional; a list of raw parameters shorter than that makes \<open>parseParams\<close>, the
  constructor and so \<open>parse\<close> fail with the error that more parameters were expected, and
  no map of parsed parameters is made.
\<close>

theorem required_param_underflow:
  "minParamCount cls = length (filter (\<lambda>entry. \<not> optional (snd entry)) (PARAM_SPEC cls))
   \<and> (length ps < minParamCount cls \<longrightarrow>
        parseParams client cls (Some ps) = Inl ExpectedMoreParams
        \<and> newMessage client cls cmd (Some ps) tags prefix = Inl ExpectedMoreParams)
   \<and> (parseLoop (split (CHR '' '') line) (None, None, None, []) = Inr (tags, prefix, Some c, ps)
        \<and> c \<noteq> [] \<and> commandClasses client c = Some cls \<and> length ps < minParamCount cls \<longrightarrow>
        parse client line = Inl ExpectedMoreParams)"
  by (simp add: minParamCount_def parseParams_def newMessage_def parse_def filter_map comp_def)

theorem required_param_underflow_witness:
  "minParamCount Error436NickCollision = 3
   \<and> parseParams exampleClient Error436NickCollision (Some [\<lparr>value = ''me'', trailing = False\<rparr>])
       = Inl ExpectedMoreParams
   \<and> parse exampleClient ''436 me'' = Inl ExpectedMoreParams"
  using required_param_underflow [of Error436NickCollision "[\<lparr>value = ''me'', trailing = False\<rparr>]"
      exampleClient "''436''" None None "''436 me''" "''436''"]
  by (simp add: Error436NickCollision_def plainEntry_def exampleClient_def split_def truthy_def
      toUpperCase_def toUpperChar_def)

text \<open>
  C3, as the code has it. When the loop of \<open>parseParams\<close> is at an entry that is not a
  \<open>rest\<close> entry, a raw parameter is left at the index and the count check lets the entry
  through, and the parameter's value fails \<open>checkParam\<close>: an optional entry is skipped
  with the index, the count of required parameters and the parsed parameters unchanged
  (and the walk ends there if the entry is trailing); a required entry fails the whole
  resolution. A required \<open>rest\<close> entry whose joined value fails \<open>checkParam\<close> fails the
  whole resolution too.
\<close>

theorem validator_failure:
  "(i < length ps \<and> \<not> rest e \<and> \<not> checkParam client (value (ps ! i)) e \<longrightarrow>
      (optional e \<and> requiredLeft < int (length ps) - int i \<longrightarrow>
         parseParamsLoop client ps ((paramName, e) # entries) i requiredLeft parsed
           = (if trailingEntry e then Inr parsed
              else parseParamsLoop client ps entries i requiredLeft parsed))
      \<and> (\<not> optional e \<and> requiredLeft \<le> int (length ps) - int i \<longrightarrow>
         parseParamsLoop client ps ((paramName, e) # entries) i requiredLeft parsed
           = Inl (RequiredParamInvalid paramName)))
   \<and> (i < length ps \<and> rest e \<and> \<not> optional e \<and> requiredLeft \<le> int (length ps) - int i
        \<and> \<not> trailing (ps ! i)
        \<and> \<not> checkParam client
              (join (CHR '' '') (map value (takeWhile (\<lambda>p. \<not> trailing p) (drop i ps)))) e \<longrightarrow>
         parseParamsLoop client ps ((paramName, e) # entries) i requiredLeft parsed
           = Inl (RequiredParamInvalid paramName))"
  by (auto simp: afterEntry_def Let_def takeWhile_eq_Nil_iff hd_drop_conv_nth)

theorem validator_failure_witness:
  "parseParamsLoop exampleClient [\<lparr>value = ''x'', trailing = False\<rparr>]
     [(''version'', digitsEntry), (''word'', optionalEntry)] 0 0 Map.empty
     = parseParamsLoop exampleClient [\<lparr>value = ''x'', trailing = False\<rparr>]
         [(''word'', optionalEntry)] 0 0 Map.empty
   \<and> parseParamsLoop exampleClient [\<lparr>value = ''x'', trailing = False\<rparr>]
       [(''version'', digitsEntry\<lparr>optional := False\<rparr>), (''word'', optionalEntry)] 0 1 Map.empty
     = Inl (RequiredParamInvalid ''version'')
   \<and> parseParamsLoop exampleClient [\<lparr>value = ''x'', trailing = False\<rparr>]
       [(''version'', restDigitsEntry\<lparr>optional := False\<rparr>), (''word'', optionalEntry)] 0 1 Map.empty
     = Inl (RequiredParamInvalid ''version'')"
  using validator_failure [of 0 "[\<lparr>value = ''x'', trailing = False\<rparr>]" digitsEntry exampleClient 0
      "''version''" "[(''word'', optionalEntry)]" Map.empty]
    validator_failure [of 0 "[\<lparr>value = ''x'', trailing = False\<rparr>]" "digitsEntry\<lparr>optional := False\<rparr>"
      exampleClient 1 "''version''" "[(''word'', optionalEntry)]" Map.empty]
    validator_failure [of 0 "[\<lparr>value = ''x'', trailing = False\<rparr>]"
      "restDigitsEntry\<lparr>optional := False\<rparr>"
      exampleClient 1 "''version''" "[(''word'', optionalEntry)]" Map.empty]
  by (simp add: digitsEntry_def restDigitsEntry_def plainEntry_def checkParam_def matchVersion_def
      isDigit_def)

text \<open>
  C3, as stated, fails for an optional \<open>rest\<close> entry: its one raw parameter \<open>x\<close> fails the
  validator and the entry is skipped, but the index has moved past the parameter, so the
  next entry does not get it; without the \<open>rest\<close> entry it does.
\<close>

theorem rest_validator_failure_counterexample:
  "\<not> checkParam exampleClient ''x'' restDigitsEntry
   \<and> parseParamsLoop exampleClient [\<lparr>value = ''x'', trailing = False\<rparr>]
         [(''version'', restDigitsEntry), (''word'', optionalEntry)] 0 0 Map.empty
       = Inr Map.empty
   \<and> parseParamsLoop exampleClient [\<lparr>value = ''x'', trailing = False\<rparr>]
         [(''word'', optionalEntry)] 0 0 Map.empty
       = Inr [''word'' \<mapsto> \<lparr>value = ''x'', trailing = False\<rparr>]"
  by (simp add: digitsEntry_def restDigitsEntry_def optionalEntry_def plainEntry_def checkParam_def
      matchVersion_def isDigit_def afterEntry_def)

text \<open>
  C8, as the code has it. A line that is tokenized with a command the registry does not
  know is parsed without failure into a message of the base class, whose parameter spec
  has no entry: no parameter is resolved or validated, the map of parsed parameters is
  empty, and the raw parameters are kept as they were tokenized.
\<close>

theorem unknown_command:
  "PARAM_SPEC Message_class = []
   \<and> (parseLoop (split (CHR '' '') line) (None, None, None, []) = Inr (tags, prefix, Some c, ps)
        \<and> c \<noteq> [] \<and> commandClasses client c = None \<longrightarrow>
        parse client line
          = Inr \<lparr>constructorOf = Message_class, tagsOf = tags, prefixOf = prefix, command = c,
                 paramsOf = Some ps, parsedParams = Some Map.empty, rawLine = Some line\<rparr>)"
  by (simp add: parse_def newMessage_def parseParams_def minParamCount_def Message_class_def)

theorem unknown_command_witness:
  "parse exampleClient ''FOO a :b c''
     = Inr \<lparr>constructorOf = Message_class, tagsOf = None, prefixOf = None, command = ''FOO'',
            paramsOf = Some [\<lparr>value = ''a'', trailing = False\<rparr>, \<lparr>value = ''b c'', trailing = True\<rparr>],
            parsedParams = Some Map.empty, rawLine = Some ''FOO a :b c''\<rparr>"
  using unknown_command [of "''FOO a :b c''" None None "''FOO''"
      "[\<lparr>value = ''a'', trailing = False\<rparr>, \<lparr>value = ''b c'', trailing = True\<rparr>]" exampleClient]
  by (simp add: split_def truthy_def toUpperCase_def toUpperChar_def exampleClient_def)

text \<open>
  C8, as stated, fails: the descriptor of an unknown command has no entry at all, and the
  message parsed from \<open>FOO a b\<close> has no parsed parameter.
\<close>

theorem unknown_command_counterexample:
  "PARAM_SPEC Message_class = []
   \<and> parse exampleClient ''FOO a b''
       = Inr \<lparr>constructorOf = Message_class, tagsOf = None, prefixOf = None, command = ''FOO'',
              paramsOf = Some [\<lparr>value = ''a'', trailing = False\<rparr>, \<lparr>value = ''b'', trailing = False\<rparr>],
              parsedParams = Some Map.empty, rawLine = Some ''FOO a b''\<rparr>"
  by (simp add: parse_def split_def truthy_def toUpperCase_def toUpperChar_def exampleClient_def
      newMessage_def parseParams_def minParamCount_def Message_class_def)

section \<open>Properties of reply capture\<close>

lemma create_requestMessage:
  "create CapabilityNegotiation exampleClient
     [''command'' \<mapsto> ''REQ'', ''capabilities'' \<mapsto> ''multi-prefix''] = Inr requestMessage"
  by (simp add: create_def newMessage_def parseParams_def CapabilityNegotiation_def plainEntry_def
      checkParam_def matchSubCommand_def toUpperCase_def toUpperChar_def requestMessage_def)

lemma parse_ackMessage:
  "parse exampleClient ''CAP * ACK :multi-prefix '' = Inr ackMessage"
  by (simp add: parse_def split_def truthy_def toUpperCase_def toUpperChar_def exampleClient_def
      newMessage_def parseParams_def minParamCount_def CapabilityNegotiation_def plainEntry_def
      checkParam_def matchSubCommand_def matchTarget_def matchVersion_def matchContinued_def
      isDigit_def afterEntry_def ackMessage_def fun_upd_twist)

text \<open>
  C10. For a message whose class does not support capture, \<open>sendAndCaptureReply\<close> fails
  with the capture-unsupported error and the client's state is as before: no capture is
  registered and no line is sent. For a class that supports capture, the capture of the
  message is registered, open and empty; and when the message serializes, the line is
  sent and the handle of the registered capture is returned.
\<close>

theorem sendAndCaptureReply_guard:
  "(\<not> SUPPORTS_CAPTURE (constructorOf m) \<longrightarrow> sendAndCaptureReply m st = (Inl CaptureUnsupported, st))
   \<and> (SUPPORTS_CAPTURE (constructorOf m) \<longrightarrow>
        captures (snd (sendAndCaptureReply m st))
          = captures st @ [\<lparr>originating = m, accumulated = [], completion = Open\<rparr>])
   \<and> (SUPPORTS_CAPTURE (constructorOf m) \<and> toString m = Inr line \<longrightarrow>
        sendAndCaptureReply m st
          = (Inr (length (captures st)),
             st\<lparr>captures := captures st @ [\<lparr>originating = m, accumulated = [], completion = Open\<rparr>],
                sentLines := sentLines st @ [line]\<rparr>))"
  by (auto simp: sendAndCaptureReply_def collect_def send_def split: sum.splits)

theorem sendAndCaptureReply_guard_witness:
  "sendAndCaptureReply quitMessage \<lparr>captures = [], sentLines = []\<rparr>
     = (Inl CaptureUnsupported, \<lparr>captures = [], sentLines = []\<rparr>)
   \<and> sendAndCaptureReply requestMessage \<lparr>captures = [], sentLines = []\<rparr>
     = (Inr 0, \<lparr>captures = [\<lparr>originating = requestMessage, accumulated = [], completion = Open\<rparr>],
                sentLines = [''CAP REQ :multi-prefix'']\<rparr>)"
  using sendAndCaptureReply_guard [of quitMessage "\<lparr>captures = [], sentLines = []\<rparr>"]
    sendAndCaptureReply_guard [of requestMessage "\<lparr>captures = [], sentLines = []\<rparr>"
      "''CAP REQ :multi-prefix''"]
  by (simp add: quitMessage_def requestMessage_def ClientQuit_def CapabilityNegotiation_def
      toString_def List.map_filter_def renderParam_def)

text \<open>
  C2. For a reply and an originating message of the class \<open>CapabilityNegotiation\<close>,
  \<open>isResponseTo\<close> returns true iff the reply's sub-command is \<open>ACK\<close> or \<open>NAK\<close>, the
  originating one is \<open>REQ\<close> and the originating capabilities are the reply's, trimmed; or
  the reply's sub-command is \<open>LS\<close> or \<open>LIST\<close> and the originating one is the same. An
  accepted \<open>ACK\<close> or \<open>NAK\<close> ends the response, so that offering it to the open, empty
  capture of the request completes the capture with that one message.
\<close>

theorem CapabilityNegotiation_response:
  assumes "instanceof reply CapabilityNegotiation" and "instanceof orig CapabilityNegotiation"
  shows "(isResponseTo reply orig = Inr True \<longleftrightarrow>
            (paramValue reply ''command'' = Some ''ACK'' \<or> paramValue reply ''command'' = Some ''NAK'')
            \<and> paramValue orig ''command'' = Some ''REQ''
            \<and> (\<exists>caps. paramValue reply ''capabilities'' = Some caps
                        \<and> paramValue orig ''capabilities'' = Some (trim caps))
          \<or> (paramValue reply ''command'' = Some ''LS'' \<or> paramValue reply ''command'' = Some ''LIST'')
            \<and> paramValue orig ''command'' = paramValue reply ''command'')
       \<and> ((paramValue reply ''command'' = Some ''ACK'' \<or> paramValue reply ''command'' = Some ''NAK'')
            \<and> isResponseTo reply orig = Inr True \<longrightarrow>
          endsResponseTo reply orig = Inr True
          \<and> offer \<lparr>originating = orig, accumulated = [], completion = Open\<rparr> reply
              = Inr \<lparr>originating = orig, accumulated = [reply], completion = ClosedSuccess\<rparr>)"
proof -
  have resp: "isResponseTo reply orig = CapabilityNegotiation_isResponseTo reply orig"
    using assms(1) by (simp add: isResponseTo_def)
  have ends: "endsResponseTo reply orig = CapabilityNegotiation_endsResponseTo reply orig"
    using assms(1) by (simp add: endsResponseTo_def)
  have iff: "CapabilityNegotiation_isResponseTo reply orig = Inr True \<longleftrightarrow>
            (paramValue reply ''command'' = Some ''ACK'' \<or> paramValue reply ''command'' = Some ''NAK'')
            \<and> paramValue orig ''command'' = Some ''REQ''
            \<and> (\<exists>caps. paramValue reply ''capabilities'' = Some caps
                        \<and> paramValue orig ''capabilities'' = Some (trim caps))
          \<or> (paramValue reply ''command'' = Some ''LS'' \<or> paramValue reply ''command'' = Some ''LIST'')
            \<and> paramValue orig ''command'' = paramValue reply ''command''"
    using assms(2)
    by (cases "parsedParams reply"; cases "parsedParams orig")
       (auto simp: CapabilityNegotiation_isResponseTo_def paramValue_def params_def
             split: option.splits)
  have fin: "(paramValue reply ''command'' = Some ''ACK'' \<or> paramValue reply ''command'' = Some ''NAK'')
            \<and> isResponseTo reply orig = Inr True \<longrightarrow>
          endsResponseTo reply orig = Inr True
          \<and> offer \<lparr>originating = orig, accumulated = [], completion = Open\<rparr> reply
              = Inr \<lparr>originating = orig, accumulated = [reply], completion = ClosedSuccess\<rparr>"
  proof (intro impI, elim conjE)
    assume cmd: "paramValue reply ''command'' = Some ''ACK'' \<or> paramValue reply ''command'' = Some ''NAK''"
      and acc: "isResponseTo reply orig = Inr True"
    have e: "endsResponseTo reply orig = Inr True"
      using cmd assms(2) unfolding ends
      by (cases "parsedParams reply")
         (auto simp: CapabilityNegotiation_endsResponseTo_def paramValue_def params_def)
    show "endsResponseTo reply orig = Inr True
          \<and> offer \<lparr>originating = orig, accumulated = [], completion = Open\<rparr> reply
              = Inr \<lparr>originating = orig, accumulated = [reply], completion = ClosedSuccess\<rparr>"
      using e acc by (simp add: offer_def acceptsInReplyCollection_def)
  qed
  show ?thesis using iff fin unfolding resp by blast
qed

theorem CapabilityNegotiation_response_witness:
  "isResponseTo ackMessage requestMessage = Inr True
   \<and> endsResponseTo ackMessage requestMessage = Inr True
   \<and> offer \<lparr>originating = requestMessage, accumulated = [], completion = Open\<rparr> ackMessage
       = Inr \<lparr>originating = requestMessage, accumulated = [ackMessage], completion = ClosedSuccess\<rparr>"
  using CapabilityNegotiation_response [of ackMessage requestMessage]
  by (simp add: instanceof_def ackMessage_def requestMessage_def paramValue_def params_def trim_def
      isWhiteSpace_def)

section \<open>The round trip\<close>

lemma fill_Nil: "fill vals [] parsed = parsed"
  by (simp add: fill_def)

lemma fill_Cons:
  "fill vals (entry # es) parsed = fill vals es (parsed(fst entry \<mapsto> paramOfEntry vals entry))"
  by (simp add: fill_def)

lemma fill_other: "n \<notin> fst ` set es \<Longrightarrow> fill vals es parsed n = parsed n"
  by (induction es arbitrary: parsed) (auto simp: fill_Nil fill_Cons)

lemma fill_lookup:
  "distinct (map fst es) \<Longrightarrow> entry \<in> set es \<Longrightarrow>
   fill vals es parsed (fst entry) = Some (paramOfEntry vals entry)"
proof (induction es arbitrary: parsed)
  case Nil
  then show ?case by simp
next
  case (Cons a es)
  show ?case
  proof (cases "entry = a")
    case True
    have "fst a \<notin> fst ` set es" using Cons.prems(1) by simp
    then show ?thesis using True by (simp add: fill_Cons fill_other)
  next
    case False
    then have "entry \<in> set es" using Cons.prems(2) by simp
    then show ?thesis using Cons.IH Cons.prems(1) by (simp add: fill_Cons)
  qed
qed

lemma map_filter_all_Some:
  "\<forall>x \<in> set xs. f (g x) = Some (h x) \<Longrightarrow> List.map_filter f (map g xs) = map h xs"
  by (induction xs) (auto simp: List.map_filter_def)

lemma createLoop_fill:
  "\<forall>entry \<in> set es. \<exists>v. vals (fst entry) = Some v \<and> checkParam client v (snd entry) \<Longrightarrow>
   createLoop client vals es parsed = Inr (fill vals es parsed)"
proof (induction es arbitrary: parsed)
  case Nil
  then show ?case by (simp add: fill_Nil)
next
  case (Cons entry es)
  obtain n e where ne: "entry = (n, e)" by (cases entry)
  from Cons.prems obtain v where v: "vals n = Some v" "checkParam client v e"
    using ne by auto
  have rest: "\<forall>entry \<in> set es. \<exists>v. vals (fst entry) = Some v \<and> checkParam client v (snd entry)"
    using Cons.prems by simp
  have step: "createLoop client vals (entry # es) parsed
                = createLoop client vals es (parsed(fst entry \<mapsto> paramOfEntry vals entry))"
    using v by (simp add: ne paramOfEntry_def)
  show ?case
    unfolding step fill_Cons by (rule Cons.IH [OF rest])
qed

lemma parseParamsLoop_fill:
  assumes "\<forall>entry \<in> set es. \<not> rest (snd entry)
             \<and> checkParam client (value (paramOfEntry vals entry)) (snd entry)"
    and "\<forall>entry \<in> set (butlast es). \<not> trailingEntry (snd entry)"
    and "drop i ps = map (paramOfEntry vals) es"
    and "req = int (length (filter (\<lambda>entry. \<not> optional (snd entry)) es))"
  shows "parseParamsLoop client ps es i req parsed = Inr (fill vals es parsed)"
  using assms
proof (induction es arbitrary: i req parsed)
  case Nil
  then show ?case by (simp add: fill_Nil)
next
  case (Cons entry es)
  obtain n e where ne: "entry = (n, e)" by (cases entry)
  have dr: "drop i ps = paramOfEntry vals entry # map (paramOfEntry vals) es"
    using Cons.prems(3) by simp
  have i_lt: "i < length ps"
    using dr by (cases "i < length ps") auto
  have nth: "ps ! i = paramOfEntry vals entry"
    using dr i_lt by (metis Cons_nth_drop_Suc list.inject)
  have dr': "drop (i + 1) ps = map (paramOfEntry vals) es"
    using dr i_lt by (metis Cons_nth_drop_Suc Suc_eq_plus1 list.inject)
  have len: "int (length ps) - int i = 1 + int (length es)"
  proof -
    have "length (drop i ps) = Suc (length es)" using dr by simp
    then show ?thesis using i_lt by simp
  qed
  let ?k = "int (length (filter (\<lambda>entry. \<not> optional (snd entry)) es))"
  have k_le: "?k \<le> int (length es)" by simp
  have req: "req = (if optional e then ?k else ?k + 1)"
    using Cons.prems(4) ne by simp
  have ok: "\<not> rest e" "checkParam client (value (paramOfEntry vals entry)) e"
    using Cons.prems(1) ne by auto
  have rest_ok: "\<forall>entry \<in> set es. \<not> rest (snd entry)
             \<and> checkParam client (value (paramOfEntry vals entry)) (snd entry)"
    using Cons.prems(1) by simp
  have bl: "\<forall>entry \<in> set (butlast es). \<not> trailingEntry (snd entry)"
    using Cons.prems(2) by (cases es) auto
  have tr: "trailingEntry e \<Longrightarrow> es = []"
    using Cons.prems(2) ne by (cases es) auto
  have IH: "parseParamsLoop client ps es (i + 1) (if optional e then req else req - 1)
              (parsed(n \<mapsto> ps ! i))
            = Inr (fill vals es (parsed(n \<mapsto> ps ! i)))"
    by (rule Cons.IH [OF rest_ok bl dr']) (simp add: req)
  have req_opt: "optional e \<Longrightarrow> req = ?k" using req by simp
  have req_le: "req \<le> ?k + 1" using req by simp
  have c1: "\<not> (int (length ps) - int i \<le> req \<and> optional e)"
  proof
    assume a: "int (length ps) - int i \<le> req \<and> optional e"
    then have a1: "int (length ps) - int i \<le> req" and a2: "req = ?k"
      using req_opt by simp_all
    from a1 a2 len k_le show False by linarith
  qed
  have c2: "\<not> (int (length ps) - int i \<le> req \<and> int (length ps) - int i \<noteq> req)"
  proof
    assume a: "int (length ps) - int i \<le> req \<and> int (length ps) - int i \<noteq> req"
    then have a1: "int (length ps) - int i \<le> req" and a2: "int (length ps) - int i \<noteq> req"
      by simp_all
    from a1 a2 len k_le req_le show False by linarith
  qed
  have c3: "\<not> length ps \<le> i" using i_lt by simp
  have ck: "checkParam client (value (ps ! i)) e"
    using ok(2) nth by simp
  have step: "parseParamsLoop client ps ((n, e) # es) i req parsed
      = afterEntry e (parsed(n \<mapsto> ps ! i))
          (parseParamsLoop client ps es (i + 1) (if optional e then req else req - 1)
             (parsed(n \<mapsto> ps ! i)))"
    apply (subst parseParamsLoop.simps)
    apply (simp only: c1 c2 c3 ck ok(1) if_False if_True Let_def simp_thms)
    done
  have R: "fill vals ((n, e) # es) parsed = fill vals es (parsed(n \<mapsto> ps ! i))"
    unfolding nth ne by (simp only: fill_Cons fst_conv)
  show ?case
  proof (cases "trailingEntry e")
    case True
    then have "es = []" by (rule tr)
    then have R': "fill vals ((n, e) # es) parsed = parsed(n \<mapsto> ps ! i)"
      unfolding R by (simp only: fill_Nil)
    have L: "parseParamsLoop client ps ((n, e) # es) i req parsed = Inr (parsed(n \<mapsto> ps ! i))"
      unfolding step afterEntry_def using True by (simp only: if_True)
    show ?thesis unfolding ne L R' by (rule refl)
  next
    case False
    have L: "parseParamsLoop client ps ((n, e) # es) i req parsed
        = parseParamsLoop client ps es (i + 1) (if optional e then req else req - 1)
            (parsed(n \<mapsto> ps ! i))"
      unfolding step afterEntry_def using False by (simp only: if_False)
    show ?thesis unfolding ne L R by (rule IH)
  qed
qed


lemma split_no_sep: "sep \<notin> set s \<Longrightarrow> split sep s = [s]"
  by (simp add: split_def splitPieces_no_sep)

lemma split_append: "sep \<notin> set a \<Longrightarrow> split sep (a @ sep # b) = a # split sep b"
  by (simp add: split_def splitPieces_append case_prod_beta)

lemma split_Cons_other:
  "c \<noteq> sep \<Longrightarrow> \<exists>w ws. split sep (c # cs) = (c # w) # ws"
  by (simp add: split_def case_prod_beta)

lemma join_Cons_Cons: "join sep ((c # w) # ws) = c # join sep (w # ws)"
  by (cases ws) simp_all

lemma join_split: "join sep (split sep s) = s"
proof (induction s)
  case Nil
  then show ?case by (simp add: split_def)
next
  case (Cons c cs)
  obtain w ws where p: "splitPieces sep cs = (w, ws)" by (cases "splitPieces sep cs")
  then have "join sep (w # ws) = cs" using Cons.IH by (simp add: split_def)
  then show ?case using p by (simp add: split_def join_Cons_Cons)
qed

lemma join_Cons_nonempty: "xs \<noteq> [] \<Longrightarrow> join sep (x # xs) = x @ sep # join sep xs"
  by (cases xs) simp_all

lemma split_join_Cons:
  "sep \<notin> set x \<Longrightarrow> xs \<noteq> [] \<Longrightarrow> split sep (join sep (x # xs)) = x # split sep (join sep xs)"
  by (simp add: join_Cons_nonempty split_append)

lemma parseLoop_trailing_token:
  assumes "c \<noteq> []"
  shows "parseLoop (split (CHR '' '') (CHR '':'' # v)) (tags, prefix, Some c, acc)
           = Inr (tags, prefix, Some c, acc @ [\<lparr>value = v, trailing = True\<rparr>])"
proof -
  obtain w ws where sp: "split (CHR '' '') (CHR '':'' # v) = (CHR '':'' # w) # ws"
    using split_Cons_other [of "CHR '':''" "CHR '' ''" v] by auto
  have "join (CHR '' '') ((CHR '':'' # w) # ws) = CHR '':'' # v"
    using join_split [of "CHR '' ''" "CHR '':'' # v"] unfolding sp .
  then show ?thesis
    unfolding sp using assms by (simp add: truthy_def)
qed

lemma parseLoop_plain_token:
  assumes "c \<noteq> []" and "take 1 v \<noteq> '':''"
  shows "parseLoop (v # tokens) (tags, prefix, Some c, acc)
           = parseLoop tokens (tags, prefix, Some c, acc @ [\<lparr>value = v, trailing = False\<rparr>])"
  using assms by (simp add: truthy_def)

lemma parseLoop_params:
  assumes "c \<noteq> []"
    and "es \<noteq> []"
    and "\<forall>entry \<in> set es. \<not> trailingEntry (snd entry) \<longrightarrow>
           CHR '' '' \<notin> set (value (paramOfEntry vals entry))
           \<and> take 1 (value (paramOfEntry vals entry)) \<noteq> '':''"
    and "\<forall>entry \<in> set (butlast es). \<not> trailingEntry (snd entry)"
  shows "parseLoop (split (CHR '' '') (join (CHR '' '') (map renderParam (map (paramOfEntry vals) es))))
           (tags, prefix, Some c, acc)
         = Inr (tags, prefix, Some c, acc @ map (paramOfEntry vals) es)"
  using assms(2-)
proof (induction es arbitrary: acc)
  case Nil
  then show ?case by simp
next
  case (Cons entry es)
  let ?p = "paramOfEntry vals entry"
  show ?case
  proof (cases "es = []")
    case True
    show ?thesis
    proof (cases "trailingEntry (snd entry)")
      case True
      then have r: "renderParam ?p = CHR '':'' # value ?p" "?p = \<lparr>value = value ?p, trailing = True\<rparr>"
        by (simp_all add: renderParam_def paramOfEntry_def)
      show ?thesis
        using \<open>es = []\<close> parseLoop_trailing_token [OF assms(1), of "value ?p" tags prefix acc] r
        by simp
    next
      case False
      then have r: "renderParam ?p = value ?p" "?p = \<lparr>value = value ?p, trailing = False\<rparr>"
        by (simp_all add: renderParam_def paramOfEntry_def)
      have v: "CHR '' '' \<notin> set (value ?p)" "take 1 (value ?p) \<noteq> '':''"
        using Cons.prems(2) False by simp_all
      show ?thesis
        using \<open>es = []\<close> r v parseLoop_plain_token [OF assms(1) v(2), of "[]" tags prefix acc]
        by (simp add: split_no_sep)
    qed
  next
    case False
    then have nt: "\<not> trailingEntry (snd entry)"
      using Cons.prems(3) by (cases es) auto
    then have r: "renderParam ?p = value ?p" "?p = \<lparr>value = value ?p, trailing = False\<rparr>"
      by (simp_all add: renderParam_def paramOfEntry_def)
    have v: "CHR '' '' \<notin> set (value ?p)" "take 1 (value ?p) \<noteq> '':''"
      using Cons.prems(2) nt by simp_all
    have bl: "\<forall>entry \<in> set (butlast es). \<not> trailingEntry (snd entry)"
      using Cons.prems(3) by (cases es) auto
    have rest: "\<forall>entry \<in> set es. \<not> trailingEntry (snd entry) \<longrightarrow>
           CHR '' '' \<notin> set (value (paramOfEntry vals entry))
           \<and> take 1 (value (paramOfEntry vals entry)) \<noteq> '':''"
      using Cons.prems(2) by simp
    have sp: "split (CHR '' '') (join (CHR '' '') (map renderParam (map (paramOfEntry vals) (entry # es))))
        = value ?p # split (CHR '' '') (join (CHR '' '') (map renderParam (map (paramOfEntry vals) es)))"
      using False v(1) r(1) by (simp add: split_join_Cons)
    have "parseLoop (split (CHR '' '') (join (CHR '' '') (map renderParam (map (paramOfEntry vals) (entry # es)))))
            (tags, prefix, Some c, acc)
        = parseLoop (split (CHR '' '') (join (CHR '' '') (map renderParam (map (paramOfEntry vals) es))))
            (tags, prefix, Some c, acc @ [?p])"
      unfolding sp using parseLoop_plain_token [OF assms(1) v(2)] r(2) by simp
    also have "\<dots> = Inr (tags, prefix, Some c, (acc @ [?p]) @ map (paramOfEntry vals) es)"
      by (rule Cons.IH [OF False rest bl])
    finally show ?thesis by simp
  qed
qed


lemma parseLoop_line:
  assumes cmd: "c \<noteq> []" "CHR '' '' \<notin> set c" "take 1 c \<noteq> ''@''" "take 1 c \<noteq> '':''"
      "toUpperCase c = c"
    and "\<forall>entry \<in> set es. \<not> trailingEntry (snd entry) \<longrightarrow>
           CHR '' '' \<notin> set (value (paramOfEntry vals entry))
           \<and> take 1 (value (paramOfEntry vals entry)) \<noteq> '':''"
    and "\<forall>entry \<in> set (butlast es). \<not> trailingEntry (snd entry)"
  shows "parseLoop (split (CHR '' '') (join (CHR '' '') (c # map renderParam (map (paramOfEntry vals) es))))
           (None, None, None, [])
         = Inr (None, None, Some c, map (paramOfEntry vals) es)"
proof (cases "es = []")
  case True
  then show ?thesis using cmd by (simp add: split_no_sep truthy_def)
next
  case False
  have first: "\<And>tokens. parseLoop (c # tokens) (None, None, None, [])
                  = parseLoop tokens (None, None, Some c, [])"
    using cmd by (simp add: truthy_def)
  have sp: "split (CHR '' '') (join (CHR '' '') (c # map renderParam (map (paramOfEntry vals) es)))
        = c # split (CHR '' '') (join (CHR '' '') (map renderParam (map (paramOfEntry vals) es)))"
    using False cmd(2) by (simp add: split_join_Cons)
  show ?thesis
    unfolding sp first
    using parseLoop_params [OF cmd(1) False assms(6) assms(7), of None None "[]"] by simp
qed

text \<open>
  C1, as the code has it. Take a class with distinct parameter names, without \<open>rest\<close>
  entries and with no trailing entry before the last one, which the client's registry
  has under the class's command (a command that is not empty, has no space, does not
  start with \<open>@\<close> or a colon and is in upper case); and named values that give every entry
  of the class a value that passes \<open>checkParam\<close>, without a space and not starting with a
  colon where the entry is not trailing. Then \<open>create\<close> makes a message, its \<open>toString\<close>
  is parsed by \<open>parse\<close> into a message of the same class, the parsed parameters of the
  two are the same, and each is the value given, trailing iff its entry is.
\<close>

theorem roundTrip_full_values:
  assumes names: "distinct (map fst (PARAM_SPEC cls))"
    and norest: "\<forall>entry \<in> set (PARAM_SPEC cls). \<not> rest (snd entry)"
    and last: "\<forall>entry \<in> set (butlast (PARAM_SPEC cls)). \<not> trailingEntry (snd entry)"
    and valid: "\<forall>entry \<in> set (PARAM_SPEC cls).
                 \<exists>v. vals (fst entry) = Some v \<and> checkParam client v (snd entry)
                   \<and> (\<not> trailingEntry (snd entry) \<longrightarrow> CHR '' '' \<notin> set v \<and> take 1 v \<noteq> '':'')"
    and cmd: "COMMAND cls \<noteq> []" "CHR '' '' \<notin> set (COMMAND cls)"
      "take 1 (COMMAND cls) \<noteq> ''@''" "take 1 (COMMAND cls) \<noteq> '':''"
      "toUpperCase (COMMAND cls) = COMMAND cls"
    and reg: "commandClasses client (COMMAND cls) = Some cls"
  shows "\<exists>m m'. create cls client vals = Inr m \<and> roundTrip cls client vals = Inr m'
           \<and> constructorOf m' = cls
           \<and> parsedParams m' = parsedParams m
           \<and> (\<forall>entry \<in> set (PARAM_SPEC cls). \<forall>v. vals (fst entry) = Some v \<longrightarrow>
                 parsedParam m' (fst entry)
                   = Some \<lparr>value = v, trailing = trailingEntry (snd entry)\<rparr>)"
proof -
  let ?spec = "PARAM_SPEC cls"
  let ?c = "COMMAND cls"
  let ?ps = "map (paramOfEntry vals) ?spec"
  let ?parsed = "fill vals ?spec Map.empty"
  let ?line = "join (CHR '' '') (?c # map renderParam ?ps)"
  let ?m = "\<lparr>constructorOf = cls, tagsOf = None, prefixOf = None, command = ?c,
             paramsOf = None, parsedParams = Some ?parsed, rawLine = None\<rparr>"
  let ?m' = "\<lparr>constructorOf = cls, tagsOf = None, prefixOf = None, command = ?c,
             paramsOf = Some ?ps, parsedParams = Some ?parsed, rawLine = Some ?line\<rparr>"
  have v1: "\<forall>entry \<in> set ?spec. \<exists>v. vals (fst entry) = Some v \<and> checkParam client v (snd entry)"
    using valid by blast
  have v2: "\<forall>entry \<in> set ?spec. \<not> rest (snd entry)
             \<and> checkParam client (value (paramOfEntry vals entry)) (snd entry)"
    using valid norest by (fastforce simp: paramOfEntry_def)
  have v3: "\<forall>entry \<in> set ?spec. \<not> trailingEntry (snd entry) \<longrightarrow>
           CHR '' '' \<notin> set (value (paramOfEntry vals entry))
           \<and> take 1 (value (paramOfEntry vals entry)) \<noteq> '':''"
    using valid by (fastforce simp: paramOfEntry_def)
  have cr: "create cls client vals = Inr ?m"
    by (simp add: create_def newMessage_def parseParams_def createLoop_fill [OF v1])
  have look: "\<forall>entry \<in> set ?spec. ?parsed (fst entry) = Some (paramOfEntry vals entry)"
    using fill_lookup [OF names] by blast
  have ts: "toString ?m = Inr ?line"
    using map_filter_all_Some [of ?spec ?parsed fst "paramOfEntry vals", OF look]
    by (simp add: toString_def)
  have toks: "parseLoop (split (CHR '' '') ?line) (None, None, None, [])
                = Inr (None, None, Some ?c, ?ps)"
    by (rule parseLoop_line [OF cmd v3 last])
  have pl: "parseParamsLoop client ?ps ?spec 0
              (int (length (filter (\<lambda>entry. \<not> optional (snd entry)) ?spec))) Map.empty
            = Inr ?parsed"
    by (rule parseParamsLoop_fill [OF v2 last]) simp_all
  have enough: "\<not> length ?ps < minParamCount cls"
    by (simp add: minParamCount_def filter_map not_less)
  have pp: "parseParams client cls (Some ?ps) = Inr (Some ?parsed)"
    unfolding parseParams_def using pl enough
    by (simp add: minParamCount_def filter_map comp_def)
  have pa: "parse client ?line = Inr ?m'"
    using toks pp cmd(1) reg by (simp add: parse_def newMessage_def)
  have rt: "roundTrip cls client vals = Inr ?m'"
    using cr ts pa by (simp add: roundTrip_def)
  have vals: "\<forall>entry \<in> set ?spec. \<forall>v. vals (fst entry) = Some v \<longrightarrow>
                 parsedParam ?m' (fst entry) = Some \<lparr>value = v, trailing = trailingEntry (snd entry)\<rparr>"
    using look by (simp add: parsedParam_def paramOfEntry_def)
  show ?thesis
    using cr rt vals by (intro exI [of _ ?m] exI [of _ ?m']) simp
qed

theorem roundTrip_full_values_witness:
  "case roundTrip CapabilityNegotiation exampleClient
          [''target'' \<mapsto> ''*'', ''command'' \<mapsto> ''REQ'', ''version'' \<mapsto> ''302'',
           ''continued'' \<mapsto> ''*'', ''capabilities'' \<mapsto> ''multi-prefix sasl''] of
     Inl e \<Rightarrow> False
   | Inr m \<Rightarrow>
       parsedParam m ''target'' = Some \<lparr>value = ''*'', trailing = False\<rparr>
       \<and> parsedParam m ''command'' = Some \<lparr>value = ''REQ'', trailing = False\<rparr>
       \<and> parsedParam m ''version'' = Some \<lparr>value = ''302'', trailing = False\<rparr>
       \<and> parsedParam m ''continued'' = Some \<lparr>value = ''*'', trailing = False\<rparr>
       \<and> parsedParam m ''capabilities'' = Some \<lparr>value = ''multi-prefix sasl'', trailing = True\<rparr>"
  using roundTrip_full_values [of CapabilityNegotiation
      "[''target'' \<mapsto> ''*'', ''command'' \<mapsto> ''REQ'', ''version'' \<mapsto> ''302'',
        ''continued'' \<mapsto> ''*'', ''capabilities'' \<mapsto> ''multi-prefix sasl'']" exampleClient]
  by (auto simp: CapabilityNegotiation_def plainEntry_def exampleClient_def checkParam_def
      matchTarget_def matchSubCommand_def matchVersion_def matchContinued_def isDigit_def
      toUpperCase_def toUpperChar_def)

text \<open>
  C1, as stated, fails. The line of \<open>command: REQ, capabilities: multi-prefix\<close>, a valid
  set of values of \<open>CapabilityNegotiation\<close>, is \<open>CAP REQ :multi-prefix\<close>; parsing gives
  \<open>REQ\<close> to the optional \<open>target\<close> and fails at \<open>command\<close>. And a value with a space, valid
  for the entry \<open>nick\<close> of \<open>Error436NickCollision\<close>, comes back as two parameters.
\<close>

theorem roundTrip_counterexample:
  "roundTrip CapabilityNegotiation exampleClient
     [''command'' \<mapsto> ''REQ'', ''capabilities'' \<mapsto> ''multi-prefix'']
     = Inl (RequiredParamInvalid ''command'')
   \<and> roundTrip Error436NickCollision exampleClient
       [''me'' \<mapsto> ''a'', ''nick'' \<mapsto> ''b c'', ''suffix'' \<mapsto> ''x'']
     = Inr \<lparr>constructorOf = Error436NickCollision, tagsOf = None, prefixOf = None,
            command = ''436'',
            paramsOf = Some [\<lparr>value = ''a'', trailing = False\<rparr>, \<lparr>value = ''b'', trailing = False\<rparr>,
                             \<lparr>value = ''c'', trailing = False\<rparr>, \<lparr>value = ''x'', trailing = True\<rparr>],
            parsedParams = Some [''me'' \<mapsto> \<lparr>value = ''a'', trailing = False\<rparr>,
                                 ''nick'' \<mapsto> \<lparr>value = ''b'', trailing = False\<rparr>,
                                 ''suffix'' \<mapsto> \<lparr>value = ''c'', trailing = False\<rparr>],
            rawLine = Some ''436 a b c :x''\<rparr>"
  by (simp add: roundTrip_def create_def newMessage_def parseParams_def toString_def
      List.map_filter_def renderParam_def parse_def split_def truthy_def toUpperCase_def
      toUpperChar_def exampleClient_def minParamCount_def CapabilityNegotiation_def
      Error436NickCollision_def plainEntry_def checkParam_def matchSubCommand_def matchTarget_def
      isLetter_def afterEntry_def)

end
